theory Spec2Isabelle
  imports Complex_Main "HOL-Library.Char_ord" "HOL-Library.List_Lexorder"
    "HOL-Library.Product_Lexorder"
begin

section \<open>Mai Shan Yun sales analytics: model of \<open>MSY_Final.py\<close>\<close>

text \<open>
  Conventions of the model.
  \<^item> A pandas data frame is a list of records, one record per row, in row order.
  \<^item> Python floats are modelled by \<^typ>\<open>real\<close> with exact arithmetic; rounding of IEEE
    doubles is not modelled. Where the source divides by a quantity that can be zero, the
    division goes through \<open>fdiv\<close> below, which yields the non-finite values numpy yields.
  \<^item> Item names are byte strings; \<open>str.lower\<close> is modelled on ASCII letters.
\<close>

subsection \<open>Strings\<close>

definition lower_char :: "char \<Rightarrow> char" where
  "lower_char c =
     (if CHR ''A'' \<le> c \<and> c \<le> CHR ''Z'' then char_of (of_char c + (32::nat)) else c)"

definition lower :: "string \<Rightarrow> string" where
  "lower s = map lower_char s"

fun startswith :: "string \<Rightarrow> string \<Rightarrow> bool" where
  "startswith s [] = True"
| "startswith [] (p # ps) = False"
| "startswith (c # cs) (p # ps) = (c = p \<and> startswith cs ps)"

text \<open>\<open>str_in p s\<close> is Python's \<open>p in s\<close> for strings: \<open>p\<close> occurs in \<open>s\<close> as a
  contiguous substring.\<close>

fun str_in :: "string \<Rightarrow> string \<Rightarrow> bool" where
  "str_in p [] = (p = [])"
| "str_in p (c # cs) = (startswith (c # cs) p \<or> str_in p cs)"

subsection \<open>\<open>categorize_item\<close> (lines 23--53)\<close>

definition categorize_item :: "string \<Rightarrow> string" where
  "categorize_item item_name =
     (let item_name_low = lower item_name in
      if list_ex (\<lambda>app. str_in app item_name_low)
           [''dumpling'', ''wings'', ''tenders'', ''roll'', ''crab'', ''rangoon'', ''bun'',
            ''steam'']
      then ''Appetizers''
      else if str_in ''ramen'' item_name_low \<or> str_in ''noodle'' item_name_low
      then ''Noodle Dishes''
      else if str_in ''rice'' item_name_low
      then ''Rice Dishes''
      else if str_in ''combo'' item_name_low \<or> str_in ''special'' item_name_low
      then ''Combos/Specials''
      else if list_ex (\<lambda>drink. str_in drink item_name_low)
           [''tea'', ''lemonade'', ''soda'', ''coke'', ''pepsi'', ''starry'', ''crush'']
      then ''Drinks''
      else ''Other Entrees'')"

subsection \<open>Numbers\<close>

text \<open>The value of a float division as numpy computes it on finite operands: a finite
  quotient, or \<open>inf\<close>, \<open>-inf\<close> or \<open>nan\<close> when the divisor is zero. No exception is
  raised.\<close>

datatype fnum = Fin real | PInf | NInf | NaN

definition fdiv :: "real \<Rightarrow> real \<Rightarrow> fnum" where
  "fdiv x y =
     (if y \<noteq> 0 then Fin (x / y) else if 0 < x then PInf else if x < 0 then NInf else NaN)"

text \<open>\<open>x >= c\<close> on a float column: false on \<open>nan\<close>.\<close>

fun fge :: "fnum \<Rightarrow> real \<Rightarrow> bool" where
  "fge (Fin v) c = (c \<le> v)"
| "fge PInf c = True"
| "fge NInf c = False"
| "fge NaN c = False"

fun is_finite :: "fnum \<Rightarrow> bool" where
  "is_finite (Fin v) = True"
| "is_finite _ = False"

fun fin_val :: "fnum \<Rightarrow> real" where
  "fin_val (Fin v) = v"
| "fin_val _ = 0"

definition eps :: real where
  "eps = 1 / 1000000"

text \<open>The value an \<open>int64\<close> computation leaves for the mathematical result \<open>n\<close>: numpy
  integer arithmetic wraps around silently.\<close>

definition wrap_int64 :: "int \<Rightarrow> int" where
  "wrap_int64 n = (n + 2 ^ 63) mod 2 ^ 64 - 2 ^ 63"

subsection \<open>Data frames\<close>

record named =
  Item_Name :: string

record valued = named +
  Amount :: real

text \<open>A row of the cleaned sales table, as \<open>load_and_clean_data\<close> leaves it. \<open>Count\<close> is
  an \<open>int64\<close> column (\<open>astype(int)\<close>): its values lie between \<open>-2^63\<close> and
  \<open>2^63 - 1\<close>, and nothing keeps them from being negative.\<close>

record sale = valued +
  Count :: int
  Month :: string
  Category :: string

text \<open>A row of the table built by \<open>get_item_summary\<close>.\<close>

record item_summary = named +
  Total_Amount :: real
  Total_Count :: real
  Avg_Price :: real

text \<open>\<open>df.groupby(key)\<close>: the groups are the distinct keys in sorted order; \<open>.sum()\<close> adds
  a column over the rows of each group.\<close>

definition group_keys :: "('r \<Rightarrow> 'k::linorder) \<Rightarrow> 'r list \<Rightarrow> 'k list" where
  "group_keys key df = sort (remdups (map key df))"

definition group_sum :: "('r \<Rightarrow> 'k) \<Rightarrow> ('r \<Rightarrow> 'a::comm_monoid_add) \<Rightarrow> 'r list \<Rightarrow> 'k \<Rightarrow> 'a" where
  "group_sum key val df k = sum_list (map val (filter (\<lambda>r. key r = k) df))"

subsection \<open>\<open>load_and_clean_data\<close> (line 77) and \<open>get_item_summary\<close> (lines 83--94)\<close>

text \<open>Reading and parsing the CSV file is outside the model: the argument is the table after
  the numeric clean-up of lines 62--74, and the function adds the \<open>Category\<close> column.\<close>

definition load_and_clean_data :: "sale list \<Rightarrow> sale list" where
  "load_and_clean_data df = map (\<lambda>r. r\<lparr>Category := categorize_item (Item_Name r)\<rparr>) df"

text \<open>\<open>Total_Count\<close> is the \<open>int64\<close> sum of the group's counts, which wraps around;
  the division converts it to a float. \<open>fillna(0)\<close> acts on \<open>nan\<close> only, which the
  division cannot produce since its divisor is never zero (shown below).\<close>

definition get_item_summary :: "sale list \<Rightarrow> item_summary list" where
  "get_item_summary df =
     map (\<lambda>name.
            let total_amount = group_sum Item_Name Amount df name;
                total_count = real_of_int (wrap_int64 (group_sum Item_Name Count df name))
            in \<lparr>Item_Name = name, Total_Amount = total_amount, Total_Count = total_count,
                Avg_Price = total_amount / (total_count + eps)\<rparr>)
         (group_keys Item_Name df)"

subsection \<open>\<open>make_plot3_what_if_quadrant\<close> (lines 147--168)\<close>

text \<open>Data frames are mutable objects. The store maps a reference to the table it holds;
  references below \<open>next_ref\<close> are allocated.\<close>

record store =
  cells :: "nat \<Rightarrow> item_summary list"
  next_ref :: nat

datatype error = ItemNotFound string

text \<open>\<open>df.copy()\<close>: a new object with the same rows.\<close>

definition df_copy :: "store \<Rightarrow> nat \<Rightarrow> store \<times> nat" where
  "df_copy h src =
     (h\<lparr>cells := (cells h)(next_ref h := cells h src), next_ref := Suc (next_ref h)\<rparr>,
      next_ref h)"

text \<open>\<open>df.loc[df['Item Name'] == item, col] = v\<close>, in place.\<close>

definition loc_set ::
  "store \<Rightarrow> nat \<Rightarrow> string \<Rightarrow> (item_summary \<Rightarrow> item_summary) \<Rightarrow> store" where
  "loc_set h ref item setcol =
     h\<lparr>cells := (cells h)(ref := map (\<lambda>r. if Item_Name r = item then setcol r else r)
                                     (cells h ref))\<rparr>"

text \<open>Lines 153--168; the medians and the drawing that follow are not modelled. The
  function returns a figure: the model returns the table \<open>df_what_if\<close> the figure is drawn
  from, or, when \<open>iloc[0]\<close> raises \<open>IndexError\<close>, the error that \<open>st.error\<close> reports
  with the item's name before the function returns an empty figure.\<close>

definition make_plot3_what_if_quadrant ::
  "store \<Rightarrow> nat \<Rightarrow> string \<Rightarrow> real \<Rightarrow> real \<Rightarrow> store \<times> (error + item_summary list)" where
  "make_plot3_what_if_quadrant h item_summary_df item_to_change count_change_pct
       price_change_pct =
     (let (h1, df_what_if) = df_copy h item_summary_df in
      case filter (\<lambda>r. Item_Name r = item_to_change) (cells h1 df_what_if) of
        [] \<Rightarrow> (h1, Inl (ItemNotFound item_to_change))
      | item_row # _ \<Rightarrow>
          let new_count = Total_Count item_row * (1 + count_change_pct / 100);
              new_price = Avg_Price item_row * (1 + price_change_pct / 100);
              new_amount = new_count * new_price;
              h2 = loc_set h1 df_what_if item_to_change (\<lambda>r. r\<lparr>Total_Count := new_count\<rparr>);
              h3 = loc_set h2 df_what_if item_to_change (\<lambda>r. r\<lparr>Total_Amount := new_amount\<rparr>);
              h4 = loc_set h3 df_what_if item_to_change (\<lambda>r. r\<lparr>Avg_Price := new_price\<rparr>)
          in (h4, Inr (cells h4 df_what_if)))"

subsection \<open>\<open>make_plot5_category_treemap\<close> (lines 277--294)\<close>

text \<open>\<open>px.treemap\<close> with \<open>path = [All Items, Category, Item Name]\<close> and
  \<open>values = Amount\<close> gives every node of the hierarchy the sum of \<open>Amount\<close> over the rows
  below it: it groups the table by the path columns down to each level and sums. The model
  returns the values of the three levels.\<close>

record treemap =
  all_items :: real
  by_category :: "(string \<times> real) list"
  by_category_item :: "((string \<times> string) \<times> real) list"

definition make_plot5_category_treemap :: "sale list \<Rightarrow> treemap" where
  "make_plot5_category_treemap df =
     \<lparr>all_items = sum_list (map Amount df),
      by_category = map (\<lambda>c. (c, group_sum Category Amount df c)) (group_keys Category df),
      by_category_item =
        map (\<lambda>k. (k, group_sum (\<lambda>r. (Category r, Item_Name r)) Amount df k))
            (group_keys (\<lambda>r. (Category r, Item_Name r)) df)\<rparr>"

subsection \<open>\<open>make_plot6_movers_and_shakers\<close> (lines 296--312)\<close>

record growth_row = named +
  First_Half :: real
  Second_Half :: real
  Growth_Pct :: fnum
  Total_Sales :: real

text \<open>\<open>df[df['Month'].isin(months)].groupby('Item Name')['Amount'].sum()\<close>: a series indexed
  by the item names that have a row in these months.\<close>

definition half_sales :: "string list \<Rightarrow> sale list \<Rightarrow> (string \<times> real) list" where
  "half_sales months df =
     (let half = filter (\<lambda>r. Month r \<in> set months) df
      in map (\<lambda>name. (name, group_sum Item_Name Amount half name)) (group_keys Item_Name half))"

text \<open>\<open>.fillna(0)\<close> on a value missing from a series.\<close>

definition fillna0 :: "real option \<Rightarrow> real" where
  "fillna0 v = (case v of None \<Rightarrow> 0 | Some x \<Rightarrow> x)"

text \<open>\<open>replace([np.inf, -np.inf], np.nan)\<close> on the one column that can hold them.\<close>

fun replace_inf :: "fnum \<Rightarrow> fnum" where
  "replace_inf PInf = NaN"
| "replace_inf NInf = NaN"
| "replace_inf v = v"

text \<open>Lines 298--310: the growth table after the volume filter and \<open>dropna\<close>. The frame is
  indexed by the union of the two series' item names, in sorted order.\<close>

definition growth_table :: "sale list \<Rightarrow> growth_row list" where
  "growth_table df =
     (let first_half_sales = half_sales [''May'', ''June'', ''July''] df;
          second_half_sales = half_sales [''August'', ''September'', ''October''] df;
          names = sort (remdups (map fst first_half_sales @ map fst second_half_sales));
          growth_df =
            map (\<lambda>name.
                   let fh = fillna0 (map_of first_half_sales name);
                       sh = fillna0 (map_of second_half_sales name)
                   in \<lparr>Item_Name = name, First_Half = fh, Second_Half = sh,
                       Growth_Pct = replace_inf (fdiv (100 * (sh - fh)) (fh + eps)),
                       Total_Sales = fh + sh\<rparr>)
                names;
          growth_df = filter (\<lambda>r. 500 < Total_Sales r) growth_df
      in filter (\<lambda>r. Growth_Pct r \<noteq> NaN) growth_df)"

text \<open>\<open>nlargest(n, col)\<close> and \<open>nsmallest(n, col)\<close> on a column without \<open>nan\<close>: the first
  \<open>n\<close> rows in descending (ascending) order of the column, rows with equal values in their
  original order.\<close>

definition nlargest :: "nat \<Rightarrow> ('r \<Rightarrow> real) \<Rightarrow> 'r list \<Rightarrow> 'r list" where
  "nlargest n col df = take n (sort_key (\<lambda>r. - col r) df)"

definition nsmallest :: "nat \<Rightarrow> ('r \<Rightarrow> real) \<Rightarrow> 'r list \<Rightarrow> 'r list" where
  "nsmallest n col df = take n (sort_key col df)"

text \<open>The function returns \<open>rising_stars\<close> and \<open>fading_items\<close> (and two figures drawn from
  them).\<close>

definition make_plot6_movers_and_shakers :: "sale list \<Rightarrow> growth_row list \<times> growth_row list" where
  "make_plot6_movers_and_shakers df =
     (let growth_df = growth_table df;
          rising_stars = nlargest 10 (\<lambda>r. fin_val (Growth_Pct r)) growth_df;
          fading_items = nsmallest 10 (\<lambda>r. fin_val (Growth_Pct r)) growth_df
      in (rising_stars, fading_items))"

subsection \<open>\<open>make_plot7_pareto_analysis\<close> (lines 336--364)\<close>

record indexed = valued +
  index :: nat

record pareto_row = indexed +
  Cumulative_Amount :: real
  Cumulative_Pct :: fnum

text \<open>\<open>reset_index\<close>: the index labels become the row positions.\<close>

definition reset_index :: "indexed list \<Rightarrow> indexed list" where
  "reset_index rows = map (\<lambda>(i, r). r\<lparr>index := i\<rparr>) (enumerate 0 rows)"

text \<open>Lines 338--339. \<open>sort_values\<close> keeps the index labels of the rows it moves. Rows with
  equal amounts are kept in their order here; pandas does not fix their order.\<close>

definition item_sales_of :: "sale list \<Rightarrow> indexed list" where
  "item_sales_of df =
     (let item_sales =
            reset_index (map (\<lambda>name. \<lparr>Item_Name = name,
                                       Amount = group_sum Item_Name Amount df name, index = 0\<rparr>)
                             (group_keys Item_Name df))
      in sort_key (\<lambda>r. - Amount r) item_sales)"

definition N_TOP_ITEMS :: nat where
  "N_TOP_ITEMS = 20"

text \<open>Lines 343--349.\<close>

definition pareto_rows :: "indexed list \<Rightarrow> indexed list" where
  "pareto_rows item_sales =
     (if length item_sales > N_TOP_ITEMS then
        let df_top_n = take N_TOP_ITEMS item_sales;
            df_other = drop N_TOP_ITEMS item_sales;
            other_row = \<lparr>Item_Name = ''All Other Items'',
                         Amount = sum_list (map Amount df_other), index = 0\<rparr>
        in reset_index (df_top_n @ [other_row])
      else item_sales)"

fun cumsum_from :: "real \<Rightarrow> real list \<Rightarrow> real list" where
  "cumsum_from acc [] = []"
| "cumsum_from acc (x # xs) = (acc + x) # cumsum_from (acc + x) xs"

definition cumsum :: "real list \<Rightarrow> real list" where
  "cumsum xs = cumsum_from 0 xs"

text \<open>Lines 338--353: \<open>pareto_df\<close> with its two cumulative columns.\<close>

definition pareto_table :: "sale list \<Rightarrow> pareto_row list" where
  "pareto_table df =
     (let item_sales = item_sales_of df;
          pareto_df = pareto_rows item_sales;
          total_revenue = sum_list (map Amount pareto_df)
      in map (\<lambda>(r, c). \<lparr>Item_Name = Item_Name r, Amount = Amount r, index = index r,
                         Cumulative_Amount = c,
                         Cumulative_Pct = fdiv (100 * c) total_revenue\<rparr>)
             (zip pareto_df (cumsum (map Amount pareto_df))))"

text \<open>The function returns the summary sentence (and a figure drawn from \<open>pareto_df\<close>). The
  model returns \<open>pareto_df\<close> and, for the sentence, \<open>None\<close> when it is the ``incomplete''
  message and otherwise the two numbers \<open>num_items_for_80\<close> and \<open>pct_items\<close> it prints.
  On that branch \<open>total_items\<close> is positive, since \<open>pareto_df\<close> has a row.\<close>

definition make_plot7_pareto_analysis ::
  "sale list \<Rightarrow> pareto_row list \<times> (nat \<times> real) option" where
  "make_plot7_pareto_analysis df =
     (let pareto_df = pareto_table df;
          total_items = length (item_sales_of df)
      in case filter (\<lambda>r. fge (Cumulative_Pct r) 80) pareto_df of
           [] \<Rightarrow> (pareto_df, None)
         | r # _ \<Rightarrow>
             let num_items_for_80 = index r + 1;
                 pct_items = 100 * real num_items_for_80 / real total_items
             in (pareto_df, Some (num_items_for_80, pct_items)))"

subsection \<open>The classifier as the specification words it\<close>

text \<open>The specification describes the classifier as an ordered list of rule groups, each a
  set of keywords with a category, matched as case-insensitive substrings, the first
  matching group winning and \<open>Other Entrees\<close> the default.\<close>

definition is_substring :: "string \<Rightarrow> string \<Rightarrow> bool" where
  "is_substring kw s = (\<exists>before after. s = before @ kw @ after)"

definition rule_groups :: "(string list \<times> string) list" where
  "rule_groups =
     [([''dumpling'', ''wings'', ''tenders'', ''roll'', ''crab'', ''rangoon'', ''bun'',
        ''steam''], ''Appetizers''),
      ([''ramen'', ''noodle''], ''Noodle Dishes''),
      ([''rice''], ''Rice Dishes''),
      ([''combo'', ''special''], ''Combos/Specials''),
      ([''tea'', ''lemonade'', ''soda'', ''coke'', ''pepsi'', ''starry'', ''crush''],
       ''Drinks'')]"

definition group_matches :: "string \<Rightarrow> string list \<Rightarrow> bool" where
  "group_matches s kws = (\<exists>kw \<in> set kws. is_substring kw (lower s))"

fun first_match :: "string \<Rightarrow> (string list \<times> string) list \<Rightarrow> string" where
  "first_match s [] = ''Other Entrees''"
| "first_match s ((kws, cat) # rest) =
     (if group_matches s kws then cat else first_match s rest)"

definition classify_spec :: "string \<Rightarrow> string" where
  "classify_spec s = first_match s rule_groups"

definition categories :: "string list" where
  "categories =
     [''Appetizers'', ''Noodle Dishes'', ''Rice Dishes'', ''Combos/Specials'', ''Drinks'',
      ''Other Entrees'']"

text \<open>The row that lines 162--168 leave in place of a target row \<open>r\<close>, computed from
  \<open>item_row\<close>; used to state intermediate facts.\<close>

definition what_if_row :: "item_summary \<Rightarrow> real \<Rightarrow> real \<Rightarrow> item_summary \<Rightarrow> item_summary" where
  "what_if_row item_row cc pc r =
     r\<lparr>Total_Count := Total_Count item_row * (1 + cc / 100),
       Total_Amount := Total_Count item_row * (1 + cc / 100) * (Avg_Price item_row * (1 + pc / 100)),
       Avg_Price := Avg_Price item_row * (1 + pc / 100)\<rparr>"

subsection \<open>Example data\<close>

definition store0 :: store where
  "store0 = \<lparr>cells = (\<lambda>_. [\<lparr>Item_Name = ''Beef Ramen'', Total_Amount = 1000, Total_Count = 100,
                             Avg_Price = 10\<rparr>,
                           \<lparr>Item_Name = ''Thai Tea'', Total_Amount = 300, Total_Count = 100,
                             Avg_Price = 3\<rparr>]),
             next_ref = 1\<rparr>"

definition sales0 :: "sale list" where
  "sales0 =
     [\<lparr>Item_Name = ''Thai Tea'', Amount = 30, Count = 10, Month = ''May'', Category = ''Drinks''\<rparr>,
      \<lparr>Item_Name = ''Beef Ramen'', Amount = 120, Count = 0, Month = ''June'',
        Category = ''Noodle Dishes''\<rparr>,
      \<lparr>Item_Name = ''Thai Tea'', Amount = 15, Count = 5, Month = ''August'',
        Category = ''Drinks''\<rparr>]"

definition menu27 :: "sale list" where
  "menu27 =
     map (\<lambda>(name, amount). \<lparr>Item_Name = name, Amount = amount, Count = 1, Month = ''May'',
                              Category = ''Other Entrees''\<rparr>)
       [(''A'', 1001), (''B'', 1002), (''C'', 1003), (''D'', 1004), (''E'', 1005),
        (''F'', 1006), (''G'', 1007), (''H'', 1008), (''I'', 1009), (''J'', 1010),
        (''K'', 1011), (''L'', 1012), (''M'', 1013), (''N'', 1014), (''O'', 1015),
        (''P'', 1016), (''Q'', 1017), (''R'', 1018), (''S'', 1019), (''T'', 1020),
        (''U'', 1021), (''V'', 1022), (''W'', 1023), (''X'', 1024), (''Y'', 1025),
        (''Z'', 1026), (''a'', 1027)]"

text \<open>\<open>item_sales\<close> and \<open>pareto_df\<close> (before the cumulative columns) of \<open>menu27\<close>, written out.\<close>

definition ranked27 :: "indexed list" where
  "ranked27 =
     map (\<lambda>(i, name, amount). \<lparr>Item_Name = name, Amount = amount, index = i\<rparr>)
       [(26, ''a'', 1027), (25, ''Z'', 1026), (24, ''Y'', 1025), (23, ''X'', 1024),
        (22, ''W'', 1023), (21, ''V'', 1022), (20, ''U'', 1021), (19, ''T'', 1020),
        (18, ''S'', 1019), (17, ''R'', 1018), (16, ''Q'', 1017), (15, ''P'', 1016),
        (14, ''O'', 1015), (13, ''N'', 1014), (12, ''M'', 1013), (11, ''L'', 1012),
        (10, ''K'', 1011), (9, ''J'', 1010), (8, ''I'', 1009), (7, ''H'', 1008), (6,
        ''G'', 1007), (5, ''F'', 1006), (4, ''E'', 1005), (3, ''D'', 1004), (2, ''C'',
        1003), (1, ''B'', 1002), (0, ''A'', 1001)]"

definition top21 :: "indexed list" where
  "top21 =
     map (\<lambda>(i, name, amount). \<lparr>Item_Name = name, Amount = amount, index = i\<rparr>)
       [(0, ''a'', 1027), (1, ''Z'', 1026), (2, ''Y'', 1025), (3, ''X'', 1024), (4,
        ''W'', 1023), (5, ''V'', 1022), (6, ''U'', 1021), (7, ''T'', 1020), (8, ''S'',
        1019), (9, ''R'', 1018), (10, ''Q'', 1017), (11, ''P'', 1016), (12, ''O'',
        1015), (13, ''N'', 1014), (14, ''M'', 1013), (15, ''L'', 1012), (16, ''K'',
        1011), (17, ''J'', 1010), (18, ''I'', 1009), (19, ''H'', 1008), (20,
        ''All Other Items'', 7028)]"

definition zero_sales :: "sale list" where
  "zero_sales = [\<lparr>Item_Name = ''Thai Tea'', Amount = 0, Count = 1, Month = ''May'',
                  Category = ''Drinks''\<rparr>]"

definition movers11 :: "sale list" where
  "movers11 =
     map (\<lambda>(name, amount). \<lparr>Item_Name = name, Amount = amount, Count = 1,
                              Month = ''August'', Category = ''Other Entrees''\<rparr>)
       [(''A'', 1001), (''B'', 1002), (''C'', 1003), (''D'', 1004), (''E'', 1005),
        (''F'', 1006), (''G'', 1007), (''H'', 1008), (''I'', 1009), (''J'', 1010),
        (''K'', 1011)]"

definition growth_sales :: "sale list" where
  "growth_sales =
     [\<lparr>Item_Name = ''Boba'', Amount = 600, Count = 100, Month = ''August'',
        Category = ''Other Entrees''\<rparr>,
      \<lparr>Item_Name = ''Beef Ramen'', Amount = 400, Count = 40, Month = ''May'',
        Category = ''Noodle Dishes''\<rparr>,
      \<lparr>Item_Name = ''Beef Ramen'', Amount = 300, Count = 30, Month = ''September'',
        Category = ''Noodle Dishes''\<rparr>]"

text \<open>Two rows of one item whose counts add up to \<open>2^63\<close>.\<close>

definition overflow_sales :: "sale list" where
  "overflow_sales =
     [\<lparr>Item_Name = ''Thai Tea'', Amount = 1, Count = 4611686018427387904, Month = ''May'',
        Category = ''Drinks''\<rparr>,
      \<lparr>Item_Name = ''Thai Tea'', Amount = 1, Count = 4611686018427387904, Month = ''June'',
        Category = ''Drinks''\<rparr>]"

text \<open>A row with a negative count, and a store whose table 0 is its item summary.\<close>

definition refund_sales :: "sale list" where
  "refund_sales =
     [\<lparr>Item_Name = ''Refund'', Amount = 5, Count = - 1, Month = ''May'',
        Category = ''Other Entrees''\<rparr>]"

definition refund_store :: store where
  "refund_store = \<lparr>cells = (\<lambda>_. get_item_summary refund_sales), next_ref = 1\<rparr>"

definition sales0_store :: store where
  "sales0_store = \<lparr>cells = (\<lambda>_. get_item_summary sales0), next_ref = 1\<rparr>"

section \<open>Properties\<close>

subsection \<open>Substring search\<close>

lemma startswith_iff: "startswith s p \<longleftrightarrow> (\<exists>after. s = p @ after)"
  by (induction s p rule: startswith.induct) auto

lemma str_in_iff: "str_in p s \<longleftrightarrow> is_substring p s"
proof (induction s)
  case Nil
  show ?case by (simp add: is_substring_def)
next
  case (Cons c cs)
  have "is_substring p (c # cs) \<longleftrightarrow> (\<exists>after. c # cs = p @ after) \<or> is_substring p cs"
  proof
    assume "is_substring p (c # cs)"
    then obtain b a where eq: "c # cs = b @ p @ a"
      unfolding is_substring_def by blast
    show "(\<exists>after. c # cs = p @ after) \<or> is_substring p cs"
    proof (cases b)
      case Nil
      with eq show ?thesis by auto
    next
      case (Cons b0 bs)
      with eq have "cs = bs @ p @ a" by simp
      then show ?thesis unfolding is_substring_def by blast
    qed
  next
    assume "(\<exists>after. c # cs = p @ after) \<or> is_substring p cs"
    then show "is_substring p (c # cs)"
    proof
      assume "\<exists>after. c # cs = p @ after"
      then obtain a where "c # cs = [] @ p @ a" by auto
      then show ?thesis unfolding is_substring_def by blast
    next
      assume "is_substring p cs"
      then obtain b a where "cs = b @ p @ a" unfolding is_substring_def by blast
      then have "c # cs = (c # b) @ p @ a" by simp
      then show ?thesis unfolding is_substring_def by blast
    qed
  qed
  with Cons show ?case by (simp add: startswith_iff)
qed

lemma list_ex_str_in: "list_ex (\<lambda>kw. str_in kw s) kws \<longleftrightarrow> (\<exists>kw \<in> set kws. is_substring kw s)"
  by (simp add: list_ex_iff str_in_iff)

subsection \<open>Classification\<close>

lemma first_match_in: "first_match s gs \<in> insert ''Other Entrees'' (snd ` set gs)"
proof (induction gs)
  case Nil
  show ?case by simp
next
  case (Cons g gs)
  obtain kws cat where g: "g = (kws, cat)" by (cases g)
  show ?case
  proof (cases "group_matches s kws")
    case True
    then show ?thesis by (simp add: g)
  next
    case False
    with Cons show ?thesis by (auto simp: g)
  qed
qed

text \<open>
  C3. For every item name, \<open>categorize_item\<close> returns one of the six categories, and it is
  the category of the first rule group, in the order Appetizers, Noodle Dishes, Rice
  Dishes, Combos/Specials, Drinks, one of whose keywords occurs in the lower-cased name,
  or \<open>Other Entrees\<close> when no group matches. \<open>Steamed Dumplings\<close> is classified as
  \<open>Appetizers\<close>, not as \<open>Drinks\<close>.
\<close>

theorem categorize_item_precedence:
  "categorize_item s \<in> set categories
   \<and> categorize_item s = classify_spec s
   \<and> categorize_item ''Steamed Dumplings'' = ''Appetizers''
   \<and> categorize_item ''Steamed Dumplings'' \<noteq> ''Drinks''"
proof -
  have eq: "categorize_item s = classify_spec s"
    by (simp add: categorize_item_def classify_spec_def rule_groups_def group_matches_def
        str_in_iff Let_def is_substring_def)
  have "classify_spec s \<in> set categories"
    unfolding classify_spec_def using first_match_in[of s rule_groups]
    by (auto simp: rule_groups_def categories_def)
  moreover have "categorize_item ''Steamed Dumplings'' = ''Appetizers''" by code_simp
  ultimately show ?thesis using eq by simp
qed

theorem categorize_item_precedence_witness:
  "categorize_item ''Thai Tea'' \<in> set categories
   \<and> categorize_item ''Thai Tea'' = classify_spec ''Thai Tea''
   \<and> categorize_item ''Thai Tea'' = ''Drinks''"
proof -
  have "categorize_item ''Thai Tea'' = ''Drinks''" by code_simp
  with categorize_item_precedence[of "''Thai Tea''"] show ?thesis by blast
qed

subsection \<open>Item summary and What-If simulation\<close>

lemma what_if_not_found:
  assumes "filter (\<lambda>r. Item_Name r = item) (cells h src) = []"
  shows "make_plot3_what_if_quadrant h src item cc pc =
           (h\<lparr>cells := (cells h)(next_ref h := cells h src), next_ref := Suc (next_ref h)\<rparr>,
            Inl (ItemNotFound item))"
  using assms by (simp add: make_plot3_what_if_quadrant_def df_copy_def)

lemma what_if_found:
  assumes "filter (\<lambda>r. Item_Name r = item) (cells h src) = item_row # rest"
  shows "make_plot3_what_if_quadrant h src item cc pc =
           (h\<lparr>cells := (cells h)(next_ref h :=
                  map (\<lambda>r. if Item_Name r = item then what_if_row item_row cc pc r else r)
                      (cells h src)),
              next_ref := Suc (next_ref h)\<rparr>,
            Inr (map (\<lambda>r. if Item_Name r = item then what_if_row item_row cc pc r else r)
                      (cells h src)))"
  using assms
  by (simp add: make_plot3_what_if_quadrant_def df_copy_def loc_set_def Let_def what_if_row_def
      o_def if_distrib cong: if_cong)

lemma what_if_frame:
  assumes "ref < next_ref h"
  shows "cells (fst (make_plot3_what_if_quadrant h src item cc pc)) ref = cells h ref"
proof (cases "filter (\<lambda>r. Item_Name r = item) (cells h src)")
  case Nil
  with assms show ?thesis by (simp add: what_if_not_found)
next
  case (Cons item_row rest)
  with assms show ?thesis by (simp add: what_if_found)
qed

lemma distinct_first_match:
  assumes "distinct (map Item_Name t)" and "i < length t"
  shows "filter (\<lambda>r. Item_Name r = Item_Name (t ! i)) t = [t ! i]"
  using assms
proof (induction t arbitrary: i)
  case Nil
  then show ?case by simp
next
  case (Cons a t)
  show ?case
  proof (cases i)
    case 0
    have "filter (\<lambda>r. Item_Name r = Item_Name a) t = []"
    proof -
      have "\<forall>x \<in> set t. Item_Name x \<noteq> Item_Name a"
        using Cons.prems(1) by (metis distinct.simps(2) image_eqI list.simps(9) set_map)
      then show ?thesis by (simp add: filter_empty_conv)
    qed
    with 0 show ?thesis by simp
  next
    case (Suc j)
    with Cons.prems have j: "j < length t" and d: "distinct (map Item_Name t)" by auto
    have "Item_Name a \<noteq> Item_Name (t ! j)"
      using Cons.prems(1) j by (metis distinct.simps(2) list.simps(9) nth_map nth_mem length_map)
    with Cons.IH[OF d j] Suc show ?thesis by simp
  qed
qed

lemma map_if_name_update:
  assumes "distinct (map Item_Name t)" and "i < length t"
  shows "map (\<lambda>r. if Item_Name r = Item_Name (t ! i) then f r else r) t = t[i := f (t ! i)]"
proof (rule nth_equalityI)
  show "length (map (\<lambda>r. if Item_Name r = Item_Name (t ! i) then f r else r) t)
          = length (t[i := f (t ! i)])" by simp
next
  fix j assume "j < length (map (\<lambda>r. if Item_Name r = Item_Name (t ! i) then f r else r) t)"
  then have j: "j < length t" by simp
  show "map (\<lambda>r. if Item_Name r = Item_Name (t ! i) then f r else r) t ! j = t[i := f (t ! i)] ! j"
  proof (cases "j = i")
    case True
    with j show ?thesis by simp
  next
    case False
    have "map Item_Name t ! j \<noteq> map Item_Name t ! i"
      using assms j False by (simp add: nth_eq_iff_index_eq del: nth_map)
    with j assms(2) have "Item_Name (t ! j) \<noteq> Item_Name (t ! i)" by simp
    with j False show ?thesis by simp
  qed
qed

lemma what_if_at_index:
  assumes "distinct (map Item_Name (cells h src))" and "i < length (cells h src)"
    and "Item_Name (cells h src ! i) = item"
  shows "make_plot3_what_if_quadrant h src item cc pc =
           (h\<lparr>cells := (cells h)(next_ref h :=
                  (cells h src)[i := what_if_row (cells h src ! i) cc pc (cells h src ! i)]),
              next_ref := Suc (next_ref h)\<rparr>,
            Inr ((cells h src)[i := what_if_row (cells h src ! i) cc pc (cells h src ! i)]))"
proof -
  have f: "filter (\<lambda>r. Item_Name r = item) (cells h src) = cells h src ! i # []"
    using distinct_first_match[OF assms(1,2)] assms(3) by simp
  have m: "map (\<lambda>r. if Item_Name r = item then what_if_row (cells h src ! i) cc pc r else r)
             (cells h src)
           = (cells h src)[i := what_if_row (cells h src ! i) cc pc (cells h src ! i)]"
    using map_if_name_update[OF assms(1,2), of "what_if_row (cells h src ! i) cc pc"] assms(3)
    by simp
  show ?thesis unfolding what_if_found[OF f] m ..
qed

text \<open>
  C1. In a summary with one row per item name, the What-If simulation replaces the three
  fields of the target row by \<open>new_count = count * (1 + count_change_pct / 100)\<close>,
  \<open>new_price = avg_price * (1 + price_change_pct / 100)\<close> and
  \<open>new_amount = new_count * new_price\<close>, and leaves every other row as it is. A target row
  with count 100, price 10 and amount 1000 becomes count 150, price 9 and amount 1350 under
  the changes 50 and -10.
\<close>

theorem what_if_target_row:
  assumes "distinct (map Item_Name (cells h src))"
    and "i < length (cells h src)"
    and "Item_Name (cells h src ! i) = item"
  shows "\<exists>t. snd (make_plot3_what_if_quadrant h src item cc pc) = Inr t
           \<and> length t = length (cells h src)
           \<and> Item_Name (t ! i) = item
           \<and> Total_Count (t ! i) = Total_Count (cells h src ! i) * (1 + cc / 100)
           \<and> Avg_Price (t ! i) = Avg_Price (cells h src ! i) * (1 + pc / 100)
           \<and> Total_Amount (t ! i) = Total_Count (t ! i) * Avg_Price (t ! i)
           \<and> (\<forall>j < length t. j \<noteq> i \<longrightarrow> t ! j = cells h src ! j)
           \<and> (Total_Count (cells h src ! i) = 100 \<and> Avg_Price (cells h src ! i) = 10
                \<and> Total_Amount (cells h src ! i) = 1000 \<and> cc = 50 \<and> pc = - 10
              \<longrightarrow> Total_Count (t ! i) = 150 \<and> Avg_Price (t ! i) = 9
                  \<and> Total_Amount (t ! i) = 1350)"
  using assms(2,3) unfolding what_if_at_index[OF assms]
  by (simp add: what_if_row_def)

theorem what_if_target_row_witness:
  "\<exists>t. snd (make_plot3_what_if_quadrant store0 0 ''Beef Ramen'' 50 (- 10)) = Inr t
     \<and> Total_Count (t ! 0) = 150 \<and> Avg_Price (t ! 0) = 9 \<and> Total_Amount (t ! 0) = 1350
     \<and> t ! 1 = cells store0 0 ! 1"
proof -
  have d: "distinct (map Item_Name (cells store0 0))" by (simp add: store0_def)
  have i: "0 < length (cells store0 0)" by (simp add: store0_def)
  have n: "Item_Name (cells store0 0 ! 0) = ''Beef Ramen''" by (simp add: store0_def)
  have v: "Total_Count (cells store0 0 ! 0) = 100 \<and> Avg_Price (cells store0 0 ! 0) = 10
             \<and> Total_Amount (cells store0 0 ! 0) = 1000"
    by (simp add: store0_def)
  from what_if_target_row[OF d i n, of 50 "- 10"] obtain t
    where r: "snd (make_plot3_what_if_quadrant store0 0 ''Beef Ramen'' 50 (- 10)) = Inr t"
      and l: "length t = length (cells store0 0)"
      and o: "\<forall>j < length t. j \<noteq> 0 \<longrightarrow> t ! j = cells store0 0 ! j"
      and c: "Total_Count (t ! 0) = 150 \<and> Avg_Price (t ! 0) = 9 \<and> Total_Amount (t ! 0) = 1350"
    using v by blast
  from l have "(1::nat) < length t" by (simp add: store0_def)
  with o have "t ! 1 = cells store0 0 ! 1" by simp
  with r c show ?thesis by blast
qed

text \<open>
  C2. For every allocated summary table, every target item present in it and every pair of
  change percentages, the table passed in holds the same rows after the What-If simulation as
  before it, as does every other table allocated before the call; the modified rows live in
  a table allocated by the call.
\<close>

theorem what_if_source_unchanged:
  assumes "src < next_ref h" and "item \<in> Item_Name ` set (cells h src)"
  shows "\<exists>t. snd (make_plot3_what_if_quadrant h src item cc pc) = Inr t
           \<and> cells (fst (make_plot3_what_if_quadrant h src item cc pc)) src = cells h src
           \<and> (\<forall>ref < next_ref h.
                 cells (fst (make_plot3_what_if_quadrant h src item cc pc)) ref = cells h ref)
           \<and> cells (fst (make_plot3_what_if_quadrant h src item cc pc)) (next_ref h) = t
           \<and> next_ref h \<noteq> src"
proof -
  from assms(2) have "filter (\<lambda>r. Item_Name r = item) (cells h src) \<noteq> []"
    by (auto simp: filter_empty_conv)
  then obtain item_row rest
    where f: "filter (\<lambda>r. Item_Name r = item) (cells h src) = item_row # rest"
    by (cases "filter (\<lambda>r. Item_Name r = item) (cells h src)") auto
  show ?thesis using assms(1) by (simp add: what_if_found[OF f])
qed

theorem what_if_source_unchanged_witness:
  "cells (fst (make_plot3_what_if_quadrant store0 0 ''Beef Ramen'' 50 (- 10))) 0 = cells store0 0
   \<and> Total_Count (cells (fst (make_plot3_what_if_quadrant store0 0 ''Beef Ramen'' 50 (- 10))) 1 ! 0)
       = 150"
proof -
  have "(0::nat) < next_ref store0" by (simp add: store0_def)
  moreover have "''Beef Ramen'' \<in> Item_Name ` set (cells store0 0)" by (simp add: store0_def)
  ultimately show ?thesis
    using what_if_source_unchanged[of 0 store0 "''Beef Ramen''" 50 "- 10"]
      what_if_at_index[of store0 0 0 "''Beef Ramen''" 50 "- 10"]
    by (simp add: store0_def what_if_row_def)
qed

text \<open>
  C8. When the target item is not in the summary, the What-If simulation reports the error
  naming the item and produces no simulation result; no row of a table allocated before
  the call is modified, and the copy made by the call still holds the rows of the source.
\<close>

theorem what_if_item_not_found:
  assumes "item \<notin> Item_Name ` set (cells h src)"
  shows "snd (make_plot3_what_if_quadrant h src item cc pc) = Inl (ItemNotFound item)
         \<and> (\<forall>ref < next_ref h.
               cells (fst (make_plot3_what_if_quadrant h src item cc pc)) ref = cells h ref)
         \<and> cells (fst (make_plot3_what_if_quadrant h src item cc pc)) (next_ref h) = cells h src"
proof -
  from assms have f: "filter (\<lambda>r. Item_Name r = item) (cells h src) = []"
    by (auto simp: filter_empty_conv)
  show ?thesis by (simp add: what_if_not_found[OF f])
qed

theorem what_if_item_not_found_witness:
  "snd (make_plot3_what_if_quadrant store0 0 ''Pad Thai'' 50 (- 10)) = Inl (ItemNotFound ''Pad Thai'')
   \<and> cells (fst (make_plot3_what_if_quadrant store0 0 ''Pad Thai'' 50 (- 10))) 0 = cells store0 0
   \<and> cells (fst (make_plot3_what_if_quadrant store0 0 ''Pad Thai'' 50 (- 10))) 1 = cells store0 0"
proof -
  have "''Pad Thai'' \<notin> Item_Name ` set (cells store0 0)" by (simp add: store0_def)
  from what_if_item_not_found[OF this, of 50 "- 10"] show ?thesis by (simp add: store0_def)
qed

lemma distinct_group_keys: "distinct (group_keys key df)"
  by (simp add: group_keys_def)

lemma set_group_keys: "set (group_keys key df) = key ` set df"
  by (simp add: group_keys_def)

lemma group_sum_nonneg:
  fixes val :: "'r \<Rightarrow> 'a::ordered_comm_monoid_add"
  assumes "\<forall>r \<in> set df. 0 \<le> val r"
  shows "0 \<le> group_sum key val df k"
  unfolding group_sum_def using assms by (intro sum_list_nonneg) auto

lemma names_get_item_summary: "map Item_Name (get_item_summary df) = group_keys Item_Name df"
  by (simp add: get_item_summary_def Let_def o_def)

lemma distinct_get_item_summary: "distinct (map Item_Name (get_item_summary df))"
  by (simp add: names_get_item_summary distinct_group_keys)

lemma wrap_int64_id: "- (2 ^ 63) \<le> n \<Longrightarrow> n < 2 ^ 63 \<Longrightarrow> wrap_int64 n = n"
  by (simp add: wrap_int64_def)

lemma get_item_summary_row:
  assumes "s \<in> set (get_item_summary df)"
  shows "Total_Amount s = group_sum Item_Name Amount df (Item_Name s)
         \<and> Total_Count s = real_of_int (wrap_int64 (group_sum Item_Name Count df (Item_Name s)))
         \<and> Avg_Price s = Total_Amount s / (Total_Count s + eps)
         \<and> Item_Name s \<in> Item_Name ` set df"
  using assms by (auto simp: get_item_summary_def Let_def set_group_keys)

lemma int_plus_eps_nonzero: "real_of_int n + eps \<noteq> 0"
proof
  assume "real_of_int n + eps = 0"
  then have "real_of_int (n * 1000000) = - 1" by (simp add: eps_def field_simps)
  then have "real_of_int (n * 1000000) = real_of_int (- 1)" by simp
  then have "n * 1000000 = - 1" by (simp only: of_int_eq_iff)
  then have "(n * 1000000) mod 1000000 = (- 1) mod 1000000" by simp
  then show False by simp
qed

text \<open>
  C9 (amended). For every dataset, every row of the item summary has a divisor
  \<open>Total_Count + 1e-6\<close> different from zero, so its \<open>Avg_Price\<close> is the finite quotient,
  also when the total count is 0. When the rows of the dataset have non-negative amount and
  count and the counts of the row's item add up to less than \<open>2^63\<close>, so that the \<open>int64\<close>
  sum does not wrap around, \<open>Total_Count\<close> and \<open>Avg_Price\<close> are non-negative.
\<close>

theorem avg_price_defined_nonneg:
  assumes "s \<in> set (get_item_summary df)"
  shows "Total_Count s + eps \<noteq> 0
         \<and> fdiv (Total_Amount s) (Total_Count s + eps) = Fin (Avg_Price s)
         \<and> (Total_Count s = 0 \<longrightarrow> Avg_Price s = Total_Amount s * 1000000)
         \<and> ((\<forall>r \<in> set df. 0 \<le> Amount r \<and> 0 \<le> Count r)
              \<and> group_sum Item_Name Count df (Item_Name s) < 2 ^ 63
             \<longrightarrow> 0 \<le> Total_Count s \<and> 0 \<le> Avg_Price s)"
proof -
  note row = get_item_summary_row[OF assms]
  from row have avg: "Avg_Price s = Total_Amount s / (Total_Count s + eps)" by simp
  have nz: "Total_Count s + eps \<noteq> 0"
    using row int_plus_eps_nonzero[of "wrap_int64 (group_sum Item_Name Count df (Item_Name s))"]
    by simp
  have zero: "Total_Count s = 0 \<longrightarrow> Avg_Price s = Total_Amount s * 1000000"
    unfolding avg by (simp add: eps_def)
  have nonneg: "0 \<le> Total_Count s \<and> 0 \<le> Avg_Price s"
    if h: "\<forall>r \<in> set df. 0 \<le> Amount r \<and> 0 \<le> Count r"
      and small: "group_sum Item_Name Count df (Item_Name s) < 2 ^ 63"
  proof -
    have a: "0 \<le> Total_Amount s"
      using h row by (simp add: group_sum_nonneg)
    have "0 \<le> group_sum Item_Name Count df (Item_Name s)"
      using h by (simp add: group_sum_nonneg)
    then have "wrap_int64 (group_sum Item_Name Count df (Item_Name s))
                 = group_sum Item_Name Count df (Item_Name s)"
      using small by (intro wrap_int64_id) simp_all
    with \<open>0 \<le> group_sum Item_Name Count df (Item_Name s)\<close> row
    have c: "0 \<le> Total_Count s" by simp
    have e: "0 < eps" by (simp add: eps_def)
    from c e have pos: "0 < Total_Count s + eps" by linarith
    have "0 \<le> Avg_Price s" unfolding avg using a pos by simp
    with c show ?thesis ..
  qed
  from nz avg zero nonneg show ?thesis by (simp add: fdiv_def)
qed

lemma get_item_summary_sales0:
  "get_item_summary sales0 =
     [\<lparr>Item_Name = ''Beef Ramen'', Total_Amount = 120, Total_Count = 0,
        Avg_Price = 120000000\<rparr>,
      \<lparr>Item_Name = ''Thai Tea'', Total_Amount = 45, Total_Count = 15,
        Avg_Price = 45 / (15 + 1 / 1000000)\<rparr>]"
  by (simp add: get_item_summary_def sales0_def group_keys_def group_sum_def eps_def Let_def
      wrap_int64_def)

theorem avg_price_defined_nonneg_witness:
  "fdiv 45 (15 + eps) = Fin (45 / (15 + 1 / 1000000))
   \<and> 0 \<le> Avg_Price (get_item_summary sales0 ! 1)"
proof -
  let ?s = "get_item_summary sales0 ! 1"
  have s: "?s = \<lparr>Item_Name = ''Thai Tea'', Total_Amount = 45, Total_Count = 15,
                  Avg_Price = 45 / (15 + 1 / 1000000)\<rparr>"
    by (simp add: get_item_summary_sales0)
  have m: "?s \<in> set (get_item_summary sales0)" by (simp add: get_item_summary_sales0)
  have h: "\<forall>r \<in> set sales0. 0 \<le> Amount r \<and> 0 \<le> Count r" by (simp add: sales0_def)
  have c: "group_sum Item_Name Count sales0 (Item_Name ?s) < 2 ^ 63"
    by (simp add: s) (simp add: sales0_def group_sum_def)
  from avg_price_defined_nonneg[OF m] h c
  have "fdiv (Total_Amount ?s) (Total_Count ?s + eps) = Fin (Avg_Price ?s)
        \<and> 0 \<le> Avg_Price ?s"
    by blast
  then show ?thesis unfolding s by simp
qed

text \<open>
  C9 as stated fails on two rows of one item with amount 1 and count \<open>2^62\<close> each: the
  \<open>int64\<close> sum of the counts is \<open>-2^63\<close>, and \<open>Avg_Price\<close> is negative.
\<close>

theorem avg_price_negative_counterexample:
  "map Amount overflow_sales = [1, 1]
   \<and> map Count overflow_sales = [4611686018427387904, 4611686018427387904]
   \<and> map Total_Count (get_item_summary overflow_sales) = [- 9223372036854775808]
   \<and> map Avg_Price (get_item_summary overflow_sales)
       = [2 / (- 9223372036854775808 + 1 / 1000000)]
   \<and> 2 / (- 9223372036854775808 + 1 / 1000000) < (0::real)"
  by (simp add: get_item_summary_def overflow_sales_def group_keys_def group_sum_def eps_def
      Let_def wrap_int64_def)

text \<open>
  C10 (amended). On an item summary, the What-If simulation with both changes 0 replaces the
  target's \<open>Total_Amount\<close> by \<open>Total_Count * Avg_Price\<close>; when the target's \<open>Total_Amount\<close>
  is positive and its \<open>Total_Count\<close> lies between 0 and \<open>10^9\<close>, the new amount is strictly
  smaller, so the simulation is not the identity on the target row. The upper bound keeps
  the count where a double still resolves the added \<open>1e-6\<close>; the proof, in exact arithmetic,
  does not use it.
\<close>

theorem what_if_zero_change_shrinks:
  assumes "cells h src = get_item_summary df"
    and "i < length (get_item_summary df)"
    and "Item_Name (get_item_summary df ! i) = item"
    and "0 < Total_Amount (get_item_summary df ! i)"
    and "0 \<le> Total_Count (get_item_summary df ! i)"
    and "Total_Count (get_item_summary df ! i) \<le> 1000000000"
  shows "\<exists>t. snd (make_plot3_what_if_quadrant h src item 0 0) = Inr t
           \<and> Item_Name (t ! i) = item
           \<and> Total_Count (t ! i) = Total_Count (get_item_summary df ! i)
           \<and> Avg_Price (t ! i) = Avg_Price (get_item_summary df ! i)
           \<and> Total_Amount (t ! i)
               = Total_Count (get_item_summary df ! i) * Avg_Price (get_item_summary df ! i)
           \<and> Total_Amount (t ! i) < Total_Amount (get_item_summary df ! i)
           \<and> t ! i \<noteq> get_item_summary df ! i"
proof -
  let ?s = "get_item_summary df ! i"
  have mem: "?s \<in> set (get_item_summary df)" using assms(2) by simp
  note row = get_item_summary_row[OF mem]
  note c = assms(5)
  have e: "0 < eps" by (simp add: eps_def)
  from row have avg: "Avg_Price ?s = Total_Amount ?s / (Total_Count ?s + eps)" by simp
  have "Total_Count ?s * Total_Amount ?s < (Total_Count ?s + eps) * Total_Amount ?s"
    using assms(4) e by simp
  then have less: "Total_Count ?s * Avg_Price ?s < Total_Amount ?s"
    unfolding avg using c e by (simp add: field_simps)
  have d: "distinct (map Item_Name (cells h src))"
    by (simp add: assms(1) distinct_get_item_summary)
  have w: "make_plot3_what_if_quadrant h src item 0 0 =
             (h\<lparr>cells := (cells h)(next_ref h := (cells h src)[i := what_if_row ?s 0 0 ?s]),
                next_ref := Suc (next_ref h)\<rparr>,
              Inr ((cells h src)[i := what_if_row ?s 0 0 ?s]))"
    using what_if_at_index[OF d, of i item 0 0] assms(1,2,3) by simp
  have neq: "what_if_row ?s 0 0 ?s \<noteq> ?s"
  proof
    assume "what_if_row ?s 0 0 ?s = ?s"
    then have "Total_Amount (what_if_row ?s 0 0 ?s) = Total_Amount ?s" by simp
    with less show False by (simp add: what_if_row_def)
  qed
  show ?thesis unfolding w using assms(1,2,3) less neq by (simp add: what_if_row_def)
qed

theorem what_if_zero_change_shrinks_witness:
  "\<exists>t. snd (make_plot3_what_if_quadrant sales0_store 0 ''Thai Tea'' 0 0) = Inr t
     \<and> Total_Amount (t ! 1) = 15 * (45 / (15 + 1 / 1000000))
     \<and> Total_Amount (t ! 1) < 45"
proof -
  have c: "cells sales0_store 0 = get_item_summary sales0" by (simp add: sales0_store_def)
  have i: "1 < length (get_item_summary sales0)" by (simp add: get_item_summary_sales0)
  have n: "Item_Name (get_item_summary sales0 ! 1) = ''Thai Tea''"
    by (simp add: get_item_summary_sales0)
  have a: "0 < Total_Amount (get_item_summary sales0 ! 1)"
    by (simp add: get_item_summary_sales0)
  have lo: "0 \<le> Total_Count (get_item_summary sales0 ! 1)"
    by (simp add: get_item_summary_sales0)
  have hi: "Total_Count (get_item_summary sales0 ! 1) \<le> 1000000000"
    by (simp add: get_item_summary_sales0)
  from what_if_zero_change_shrinks[OF c i n a lo hi] obtain t
    where "snd (make_plot3_what_if_quadrant sales0_store 0 ''Thai Tea'' 0 0) = Inr t"
      and "Total_Amount (t ! 1)
             = Total_Count (get_item_summary sales0 ! 1) * Avg_Price (get_item_summary sales0 ! 1)"
      and "Total_Amount (t ! 1) < Total_Amount (get_item_summary sales0 ! 1)"
    by blast
  then have "snd (make_plot3_what_if_quadrant sales0_store 0 ''Thai Tea'' 0 0) = Inr t
           \<and> Total_Amount (t ! 1) = 15 * (45 / (15 + 1 / 1000000))
           \<and> Total_Amount (t ! 1) < 45"
    by (simp add: get_item_summary_sales0)
  then show ?thesis ..
qed

lemma get_item_summary_refund_sales:
  "get_item_summary refund_sales =
     [\<lparr>Item_Name = ''Refund'', Total_Amount = 5, Total_Count = - 1,
        Avg_Price = - (5000000 / 999999)\<rparr>]"
  by (simp add: get_item_summary_def refund_sales_def group_keys_def group_sum_def eps_def
      Let_def wrap_int64_def)

text \<open>
  C10 as stated fails on an item with a negative count: one row with amount 5 and count -1
  gives \<open>Total_Amount = 5\<close>, \<open>Total_Count = -1\<close> and a negative \<open>Avg_Price\<close>, and the
  simulation with both changes 0 writes an amount above 5.
\<close>

theorem what_if_zero_change_grows_counterexample:
  "map Amount refund_sales = [5] \<and> map Count refund_sales = [- 1]
   \<and> cells refund_store 0 = get_item_summary refund_sales
   \<and> map Total_Amount (get_item_summary refund_sales) = [5]
   \<and> snd (make_plot3_what_if_quadrant refund_store 0 ''Refund'' 0 0)
       = Inr [\<lparr>Item_Name = ''Refund'', Total_Amount = 5000000 / 999999, Total_Count = - 1,
                Avg_Price = - (5000000 / 999999)\<rparr>]
   \<and> (5::real) < 5000000 / 999999"
proof -
  have f: "filter (\<lambda>r. Item_Name r = ''Refund'') (cells refund_store 0)
             = \<lparr>Item_Name = ''Refund'', Total_Amount = 5, Total_Count = - 1,
                 Avg_Price = - (5000000 / 999999)\<rparr> # []"
    by (simp add: refund_store_def get_item_summary_refund_sales)
  have "snd (make_plot3_what_if_quadrant refund_store 0 ''Refund'' 0 0)
          = Inr [\<lparr>Item_Name = ''Refund'', Total_Amount = 5000000 / 999999, Total_Count = - 1,
                   Avg_Price = - (5000000 / 999999)\<rparr>]"
    unfolding what_if_found[OF f]
    by (simp add: refund_store_def get_item_summary_refund_sales what_if_row_def)
  moreover have "map Amount refund_sales = [5] \<and> map Count refund_sales = [- 1]"
    by (simp add: refund_sales_def)
  moreover have "cells refund_store 0 = get_item_summary refund_sales"
    by (simp add: refund_store_def)
  ultimately show ?thesis by (simp add: get_item_summary_refund_sales)
qed

subsection \<open>Grouped sums and the category rollup\<close>

lemma sum_list_zeros:
  fixes f :: "'k \<Rightarrow> 'a::comm_monoid_add"
  assumes "\<forall>k \<in> set ks. f k = 0"
  shows "sum_list (map f ks) = 0"
  using assms by (induction ks) auto

lemma sum_list_indicator:
  fixes a :: "'a::comm_monoid_add"
  assumes "distinct ks" and "k0 \<in> set ks"
  shows "sum_list (map (\<lambda>k. if k0 = k then a else 0) ks) = a"
  using assms
proof (induction ks)
  case Nil
  then show ?case by simp
next
  case (Cons k ks)
  show ?case
  proof (cases "k0 = k")
    case True
    with Cons.prems have "k0 \<notin> set ks" by simp
    then have "sum_list (map (\<lambda>k. if k0 = k then a else 0) ks) = 0"
      by (intro sum_list_zeros) auto
    with True show ?thesis by simp
  next
    case False
    with Cons show ?thesis by simp
  qed
qed

lemma sum_groups:
  fixes val :: "'r \<Rightarrow> 'a::comm_monoid_add"
  assumes "distinct ks" and "key ` set df \<subseteq> set ks"
  shows "sum_list (map (group_sum key val df) ks) = sum_list (map val df)"
  using assms(2)
proof (induction df)
  case Nil
  show ?case by (simp add: group_sum_def sum_list_zeros)
next
  case (Cons r df)
  have "map (group_sum key val (r # df)) ks
          = map (\<lambda>k. (if key r = k then val r else 0) + group_sum key val df k) ks"
    by (simp add: group_sum_def)
  then have "sum_list (map (group_sum key val (r # df)) ks)
          = sum_list (map (\<lambda>k. if key r = k then val r else 0) ks)
            + sum_list (map (group_sum key val df) ks)"
    by (simp only: sum_list_addf)
  also have "sum_list (map (\<lambda>k. if key r = k then val r else 0) ks) = val r"
    using assms(1) Cons.prems by (intro sum_list_indicator) auto
  also have "sum_list (map (group_sum key val df) ks) = sum_list (map val df)"
    using Cons by simp
  finally show ?case by simp
qed

lemma sum_group_keys:
  fixes val :: "'r \<Rightarrow> 'a::comm_monoid_add"
  shows "sum_list (map (group_sum key val df) (group_keys key df)) = sum_list (map val df)"
  by (rule sum_groups) (simp_all add: group_keys_def)

lemma group_keys_props: "distinct (group_keys key df)" "set (group_keys key df) = key ` set df"
  by (simp_all add: group_keys_def)

lemma leaves_of_category:
  fixes df :: "sale list"
  shows "sum_list (map (group_sum (\<lambda>r. (Category r, Item_Name r)) Amount df)
               (filter (\<lambda>k. fst k = c) (group_keys (\<lambda>r. (Category r, Item_Name r)) df)))
     = group_sum Category Amount df c"
proof -
  let ?pk = "\<lambda>r::sale. (Category r, Item_Name r)"
  let ?dfc = "filter (\<lambda>r. Category r = c) df"
  let ?ks = "filter (\<lambda>k. fst k = c) (group_keys ?pk df)"
  have same: "group_sum ?pk Amount df k = group_sum ?pk Amount ?dfc k" if "fst k = c" for k
  proof -
    have "filter (\<lambda>r. ?pk r = k) ?dfc = filter (\<lambda>r. ?pk r = k) df"
      using that by (auto intro: filter_cong)
    then show ?thesis by (simp add: group_sum_def)
  qed
  have e1: "map (group_sum ?pk Amount df) ?ks = map (group_sum ?pk Amount ?dfc) ?ks"
    by (rule map_cong) (auto simp: same)
  have e2: "sum_list (map (group_sum ?pk Amount ?dfc) ?ks) = sum_list (map Amount ?dfc)"
  proof (rule sum_groups)
    show "distinct ?ks" by (simp add: group_keys_def)
    show "?pk ` set ?dfc \<subseteq> set ?ks" by (auto simp: group_keys_def)
  qed
  have e3: "group_sum Category Amount df c = sum_list (map Amount ?dfc)"
    by (simp add: group_sum_def)
  show ?thesis unfolding e1 e2 e3 ..
qed

text \<open>
  C6. For every dataset, the category totals of the rollup add up to the same value as the
  per-item totals and as the raw row amounts; the leaves add up to it as well, the leaves
  below a category add up to that category's total, and every row is placed under the one
  category that \<open>categorize_item\<close> gives its item name.
\<close>

theorem category_rollup_no_leakage:
  fixes raw :: "sale list"
  defines "df \<equiv> load_and_clean_data raw"
  defines "tm \<equiv> make_plot5_category_treemap df"
  shows "sum_list (map snd (by_category tm)) = sum_list (map Total_Amount (get_item_summary df))
         \<and> sum_list (map Total_Amount (get_item_summary df)) = sum_list (map Amount raw)
         \<and> sum_list (map snd (by_category_item tm)) = sum_list (map Amount raw)
         \<and> all_items tm = sum_list (map Amount raw)
         \<and> (\<forall>c. sum_list (map snd (filter (\<lambda>leaf. fst (fst leaf) = c) (by_category_item tm)))
                  = group_sum Category Amount df c)
         \<and> (\<forall>r \<in> set df. Category r = categorize_item (Item_Name r))"
proof -
  have amt: "map Amount df = map Amount raw"
    by (simp add: df_def load_and_clean_data_def o_def)
  have cats: "sum_list (map snd (by_category tm)) = sum_list (map Amount df)"
    using sum_group_keys[of Category Amount df]
    by (simp add: tm_def make_plot5_category_treemap_def o_def)
  have items: "sum_list (map Total_Amount (get_item_summary df)) = sum_list (map Amount df)"
    using sum_group_keys[of Item_Name Amount df]
    by (simp add: get_item_summary_def Let_def o_def)
  have leaves: "sum_list (map snd (by_category_item tm)) = sum_list (map Amount df)"
    using sum_group_keys[of "\<lambda>r. (Category r, Item_Name r)" Amount df]
    by (simp add: tm_def make_plot5_category_treemap_def o_def)
  have root: "all_items tm = sum_list (map Amount df)"
    by (simp add: tm_def make_plot5_category_treemap_def)
  have parent: "sum_list (map snd (filter (\<lambda>leaf. fst (fst leaf) = c) (by_category_item tm)))
                  = group_sum Category Amount df c" for c
    using leaves_of_category[of df c]
    by (simp add: tm_def make_plot5_category_treemap_def filter_map o_def)
  have cat: "\<forall>r \<in> set df. Category r = categorize_item (Item_Name r)"
    by (auto simp: df_def load_and_clean_data_def)
  show ?thesis using cats items leaves root parent cat by (simp add: amt)
qed

lemma load_sales0: "load_and_clean_data sales0 = sales0"
  unfolding sales0_def load_and_clean_data_def by code_simp

theorem category_rollup_no_leakage_witness:
  "sum_list (map snd (by_category (make_plot5_category_treemap sales0))) = 165
   \<and> sum_list (map Total_Amount (get_item_summary sales0)) = 165
   \<and> sum_list (map Amount sales0) = 165"
proof -
  have "sum_list (map Amount sales0) = 165" by (simp add: sales0_def)
  with category_rollup_no_leakage[of sales0] show ?thesis by (simp add: load_sales0)
qed

subsection \<open>Pareto analysis\<close>

lemma sum_list_insort_key:
  fixes f :: "'r \<Rightarrow> real"
  shows "sum_list (map f (insort_key k x xs)) = f x + sum_list (map f xs)"
  by (induction xs) auto

lemma sum_list_sort_key:
  fixes f :: "'r \<Rightarrow> real"
  shows "sum_list (map f (sort_key k xs)) = sum_list (map f xs)"
  by (induction xs) (auto simp: sum_list_insort_key)

lemma length_reset_index: "length (reset_index rows) = length rows"
  by (simp add: reset_index_def)

lemma map_Amount_reset_index: "map Amount (reset_index rows) = map Amount rows"
proof -
  have "map Amount (reset_index rows) = map (\<lambda>p. Amount (snd p)) (enumerate 0 rows)"
    by (simp add: reset_index_def split_def o_def)
  also have "\<dots> = map Amount (map snd (enumerate 0 rows))"
    by (simp only: map_map o_def)
  finally show ?thesis by (simp only: map_snd_enumerate)
qed

lemma set_Amount_item_sales:
  "Amount ` set (item_sales_of df) = group_sum Item_Name Amount df ` Item_Name ` set df"
proof -
  have "Amount ` set (item_sales_of df)
          = set (map Amount (reset_index (map (\<lambda>name. \<lparr>Item_Name = name,
                    Amount = group_sum Item_Name Amount df name, index = 0\<rparr>)
                  (group_keys Item_Name df))))"
    by (simp add: item_sales_of_def Let_def)
  also have "\<dots> = set (map (group_sum Item_Name Amount df) (group_keys Item_Name df))"
    by (simp only: map_Amount_reset_index) (simp add: o_def)
  finally show ?thesis by (simp add: group_keys_props)
qed

lemma sum_Amount_item_sales:
  "sum_list (map Amount (item_sales_of df)) = sum_list (map Amount df)"
proof -
  have "sum_list (map Amount (item_sales_of df))
          = sum_list (map Amount (reset_index (map (\<lambda>name. \<lparr>Item_Name = name,
                    Amount = group_sum Item_Name Amount df name, index = 0\<rparr>)
                  (group_keys Item_Name df))))"
    by (simp add: item_sales_of_def Let_def sum_list_sort_key)
  also have "\<dots> = sum_list (map (group_sum Item_Name Amount df) (group_keys Item_Name df))"
    by (simp only: map_Amount_reset_index) (simp add: o_def)
  finally show ?thesis by (simp add: sum_group_keys)
qed

lemma length_item_sales: "length (item_sales_of df) = length (group_keys Item_Name df)"
  by (simp add: item_sales_of_def reset_index_def Let_def)

lemma sum_Amount_pareto_rows:
  "sum_list (map Amount (pareto_rows item_sales)) = sum_list (map Amount item_sales)"
proof (cases "length item_sales > N_TOP_ITEMS")
  case True
  have "sum_list (map Amount (take N_TOP_ITEMS item_sales))
          + sum_list (map Amount (drop N_TOP_ITEMS item_sales))
        = sum_list (map Amount (take N_TOP_ITEMS item_sales @ drop N_TOP_ITEMS item_sales))"
    by (simp del: append_take_drop_id)
  then show ?thesis using True
    by (simp add: pareto_rows_def Let_def map_Amount_reset_index)
next
  case False
  then show ?thesis by (simp add: pareto_rows_def)
qed

lemma nonneg_Amount_pareto_rows:
  assumes "\<forall>r \<in> set item_sales. 0 \<le> Amount r"
  shows "\<forall>a \<in> set (map Amount (pareto_rows item_sales)). 0 \<le> a"
proof (cases "length item_sales > N_TOP_ITEMS")
  case True
  have "0 \<le> sum_list (map Amount (drop N_TOP_ITEMS item_sales))"
    using assms by (intro sum_list_nonneg) (auto dest: in_set_dropD)
  moreover have "\<forall>r \<in> set (take N_TOP_ITEMS item_sales). 0 \<le> Amount r"
    using assms by (auto dest: in_set_takeD)
  ultimately show ?thesis using True
    by (simp add: pareto_rows_def Let_def map_Amount_reset_index)
next
  case False
  with assms show ?thesis by (simp add: pareto_rows_def)
qed

lemma reset_index_nonempty: "rows \<noteq> [] \<Longrightarrow> reset_index rows \<noteq> []"
  using length_reset_index[of rows] by (cases "reset_index rows") auto

lemma pareto_rows_nonempty: "item_sales \<noteq> [] \<Longrightarrow> pareto_rows item_sales \<noteq> []"
  by (simp add: pareto_rows_def Let_def reset_index_nonempty)

lemma length_cumsum_from: "length (cumsum_from a xs) = length xs"
  by (induction xs arbitrary: a) auto

lemma cumsum_from_lower:
  assumes "\<forall>x \<in> set xs. 0 \<le> x"
  shows "\<forall>c \<in> set (cumsum_from a xs). a \<le> c"
  using assms
proof (induction xs arbitrary: a)
  case Nil
  show ?case by simp
next
  case (Cons x xs)
  then have "\<forall>c \<in> set (cumsum_from (a + x) xs). a + x \<le> c" by simp
  with Cons.prems show ?case by fastforce
qed

lemma sorted_cumsum_from:
  assumes "\<forall>x \<in> set xs. 0 \<le> x"
  shows "sorted (cumsum_from a xs)"
  using assms
proof (induction xs arbitrary: a)
  case Nil
  show ?case by simp
next
  case (Cons x xs)
  then have "\<forall>c \<in> set (cumsum_from (a + x) xs). a + x \<le> c"
    by (intro cumsum_from_lower) simp
  with Cons show ?case by simp
qed

lemma last_cumsum_from: "xs \<noteq> [] \<Longrightarrow> last (cumsum_from a xs) = a + sum_list xs"
proof (induction xs arbitrary: a)
  case Nil
  then show ?case by simp
next
  case (Cons x xs)
  show ?case
  proof (cases xs)
    case Nil
    then show ?thesis by simp
  next
    case (Cons y ys)
    then have "cumsum_from (a + x) xs \<noteq> []" by simp
    with Cons.IH[of "a + x"] Cons show ?thesis by (simp add: add.assoc)
  qed
qed

lemma Cumulative_Pct_pareto_table:
  "map Cumulative_Pct (pareto_table df)
     = map (\<lambda>c. fdiv (100 * c) (sum_list (map Amount df)))
           (cumsum (map Amount (pareto_rows (item_sales_of df))))"
proof -
  let ?rows = "pareto_rows (item_sales_of df)"
  have len: "length (cumsum (map Amount ?rows)) = length ?rows"
    by (simp add: cumsum_def length_cumsum_from)
  have tot: "sum_list (map Amount ?rows) = sum_list (map Amount df)"
    by (simp add: sum_Amount_pareto_rows sum_Amount_item_sales)
  have "map Cumulative_Pct (pareto_table df)
          = map (\<lambda>p. fdiv (100 * snd p) (sum_list (map Amount df)))
                (zip ?rows (cumsum (map Amount ?rows)))"
    by (simp add: pareto_table_def Let_def tot split_def o_def)
  also have "\<dots> = map (\<lambda>c. fdiv (100 * c) (sum_list (map Amount df)))
                     (map snd (zip ?rows (cumsum (map Amount ?rows))))"
    by (simp add: o_def)
  finally show ?thesis using len by (simp only: map_snd_zip)
qed

lemma fst_make_plot7: "fst (make_plot7_pareto_analysis df) = pareto_table df"
  by (simp add: make_plot7_pareto_analysis_def Let_def split: list.splits)

text \<open>
  C7 (amended). For every non-empty dataset whose row amounts are all non-negative and whose
  total revenue is positive, the table of the Pareto analysis is not empty, every cumulative
  percentage is finite, the cumulative percentages are non-decreasing down the ranked rows,
  and the value in the last row is 100.
\<close>

theorem pareto_cumulative_pct:
  assumes "df \<noteq> []" and "\<forall>r \<in> set df. 0 \<le> Amount r" and "0 < sum_list (map Amount df)"
  shows "fst (make_plot7_pareto_analysis df) \<noteq> []
         \<and> (\<forall>r \<in> set (fst (make_plot7_pareto_analysis df)). is_finite (Cumulative_Pct r))
         \<and> sorted (map (\<lambda>r. fin_val (Cumulative_Pct r)) (fst (make_plot7_pareto_analysis df)))
         \<and> Cumulative_Pct (last (fst (make_plot7_pareto_analysis df))) = Fin 100"
proof -
  let ?T = "sum_list (map Amount df)"
  let ?rows = "pareto_rows (item_sales_of df)"
  let ?cs = "cumsum (map Amount ?rows)"
  let ?tab = "pareto_table df"
  have T: "?T \<noteq> 0" using assms(3) by simp
  have pct: "map Cumulative_Pct ?tab = map (\<lambda>c. Fin (100 * c / ?T)) ?cs"
    using T by (simp add: Cumulative_Pct_pareto_table fdiv_def)
  have "group_keys Item_Name df \<noteq> []"
    using assms(1) group_keys_props(2)[of Item_Name df] by (cases df) auto
  then have "item_sales_of df \<noteq> []"
    using length_item_sales[of df] by (cases "item_sales_of df") auto
  then have rows_ne: "?rows \<noteq> []" by (rule pareto_rows_nonempty)
  then have cs_ne: "?cs \<noteq> []"
    using length_cumsum_from[of 0 "map Amount ?rows"] by (cases ?cs) (auto simp: cumsum_def)
  have tab_ne: "?tab \<noteq> []"
  proof
    assume "?tab = []"
    then have "map Cumulative_Pct ?tab = []" by simp
    with pct cs_ne show False by simp
  qed
  have amounts: "\<forall>a \<in> set (map Amount ?rows). 0 \<le> a"
  proof (rule nonneg_Amount_pareto_rows)
    show "\<forall>r \<in> set (item_sales_of df). 0 \<le> Amount r"
    proof
      fix r assume "r \<in> set (item_sales_of df)"
      then have "Amount r \<in> Amount ` set (item_sales_of df)" by (rule imageI)
      then obtain k where "Amount r = group_sum Item_Name Amount df k"
        unfolding set_Amount_item_sales by blast
      then show "0 \<le> Amount r" using assms(2) by (simp add: group_sum_nonneg)
    qed
  qed
  have fin: "\<forall>r \<in> set ?tab. is_finite (Cumulative_Pct r)"
  proof
    fix r assume "r \<in> set ?tab"
    then have "Cumulative_Pct r \<in> set (map Cumulative_Pct ?tab)" by simp
    then show "is_finite (Cumulative_Pct r)" unfolding pct by auto
  qed
  have "sorted ?cs" unfolding cumsum_def using amounts by (rule sorted_cumsum_from)
  then have "sorted (map (\<lambda>c. 100 * c / ?T) ?cs)"
    using assms(3) by (simp add: sorted_map sorted_wrt_mono_rel[of _ "(\<le>)"] divide_right_mono)
  moreover have "map (\<lambda>r. fin_val (Cumulative_Pct r)) ?tab = map fin_val (map Cumulative_Pct ?tab)"
    by simp
  ultimately have srt: "sorted (map (\<lambda>r. fin_val (Cumulative_Pct r)) ?tab)"
    by (simp only: pct) (simp add: o_def)
  have "last ?cs = sum_list (map Amount ?rows)"
    using rows_ne by (simp add: cumsum_def last_cumsum_from)
  then have lastc: "last ?cs = ?T"
    by (simp add: sum_Amount_pareto_rows sum_Amount_item_sales)
  have "Cumulative_Pct (last ?tab) = last (map Cumulative_Pct ?tab)"
    using tab_ne by (simp add: last_map)
  also have "\<dots> = Fin (100 * last ?cs / ?T)"
    unfolding pct using cs_ne by (simp add: last_map)
  finally have lst: "Cumulative_Pct (last ?tab) = Fin 100" using T by (simp add: lastc)
  show ?thesis unfolding fst_make_plot7 using tab_ne fin srt lst by blast
qed

theorem pareto_cumulative_pct_witness:
  "map Cumulative_Pct (fst (make_plot7_pareto_analysis sales0)) = [Fin (800 / 11), Fin 100]"
proof -
  have ne: "sales0 \<noteq> []" by (simp add: sales0_def)
  have nn: "\<forall>r \<in> set sales0. 0 \<le> Amount r" by (simp add: sales0_def)
  have pos: "0 < sum_list (map Amount sales0)" by (simp add: sales0_def)
  have tab: "map Cumulative_Pct (fst (make_plot7_pareto_analysis sales0))
               = [Fin (800 / 11), Cumulative_Pct (last (fst (make_plot7_pareto_analysis sales0)))]"
    by (simp add: fst_make_plot7 pareto_table_def item_sales_of_def pareto_rows_def
        reset_index_def N_TOP_ITEMS_def cumsum_def group_keys_def group_sum_def fdiv_def
        sales0_def Let_def)
  with pareto_cumulative_pct[OF ne nn pos] show ?thesis by simp
qed

text \<open>
  C7 as stated fails on a non-empty dataset with non-negative amounts whose total revenue is
  zero: the cumulative percentage of the last row is \<open>0 / 0\<close>, that is \<open>nan\<close>, not 100.
\<close>

theorem pareto_zero_revenue_counterexample:
  "zero_sales \<noteq> [] \<and> map Amount zero_sales = [0]
   \<and> Cumulative_Pct (last (fst (make_plot7_pareto_analysis zero_sales))) = NaN"
  by (simp add: fst_make_plot7 pareto_table_def item_sales_of_def pareto_rows_def
      reset_index_def N_TOP_ITEMS_def cumsum_def group_keys_def group_sum_def fdiv_def
      zero_sales_def Let_def)

lemma group_keys_menu27:
  "group_keys Item_Name menu27 = map (\<lambda>c. [c]) ''ABCDEFGHIJKLMNOPQRSTUVWXYZa''"
  by (simp add: menu27_def group_keys_def)

lemma amounts_menu27:
  "map (group_sum Item_Name Amount menu27) (map (\<lambda>c. [c]) ''ABCDEFGHIJKLMNOPQRSTUVWXYZa'')
     = [1001, 1002, 1003, 1004, 1005, 1006, 1007, 1008, 1009, 1010, 1011, 1012, 1013,
        1014, 1015, 1016, 1017, 1018, 1019, 1020, 1021, 1022, 1023, 1024, 1025, 1026,
        1027]"
  by (simp add: menu27_def group_sum_def)

lemma unsorted_menu27:
  "reset_index (map (\<lambda>name. \<lparr>Item_Name = name, Amount = group_sum Item_Name Amount menu27 name,
                               index = 0\<rparr>)
                    (group_keys Item_Name menu27))
     = rev ranked27"
proof -
  have "map (\<lambda>name. \<lparr>Item_Name = name, Amount = group_sum Item_Name Amount menu27 name,
                               index = 0::nat\<rparr>)
                    (group_keys Item_Name menu27)
        = map (\<lambda>(name, amount). \<lparr>Item_Name = name, Amount = amount, index = 0\<rparr>)
              (zip (group_keys Item_Name menu27)
                   (map (group_sum Item_Name Amount menu27) (group_keys Item_Name menu27)))"
    by (simp add: zip_map2 o_def split_def zip_same_conv_map)
  then show ?thesis
    unfolding group_keys_menu27 amounts_menu27
    by (simp add: reset_index_def ranked27_def)
qed

lemma item_sales_menu27: "item_sales_of menu27 = ranked27"
  unfolding item_sales_of_def Let_def unsorted_menu27
  by (simp add: ranked27_def)

lemma pareto_rows_menu27: "pareto_rows ranked27 = top21"
  by (simp add: pareto_rows_def N_TOP_ITEMS_def Let_def reset_index_def ranked27_def top21_def)

lemma sum_top21: "sum_list (map Amount top21) = 27378"
  by (simp add: top21_def)

lemma cumsum_top21:
  "cumsum (map Amount top21)
     = [1027, 2053, 3078, 4102, 5125, 6147, 7168, 8188, 9207, 10225, 11242, 12258,
        13273, 14287, 15300, 16312, 17323, 18333, 19342, 20350, 27378]"
  by (simp add: top21_def cumsum_def)

lemma pareto_table_menu27:
  "pareto_table menu27
     = map (\<lambda>(r, c). \<lparr>Item_Name = Item_Name r, Amount = Amount r, index = index r,
                        Cumulative_Amount = c, Cumulative_Pct = Fin (100 * c / 27378)\<rparr>)
           (zip top21
              [1027, 2053, 3078, 4102, 5125, 6147, 7168, 8188, 9207, 10225, 11242,
               12258, 13273, 14287, 15300, 16312, 17323, 18333, 19342, 20350, 27378])"
  unfolding pareto_table_def Let_def item_sales_menu27 pareto_rows_menu27 sum_top21 cumsum_top21
  by (simp add: fdiv_def)

lemma reach80_menu27:
  "filter (\<lambda>r. fge (Cumulative_Pct r) 80) (pareto_table menu27)
     = [\<lparr>Item_Name = ''All Other Items'', Amount = 7028, index = 20, Cumulative_Amount = 27378,
         Cumulative_Pct = Fin 100\<rparr>]"
  unfolding pareto_table_menu27 by (simp add: top21_def)

text \<open>
  C4. On a menu of 27 items with revenues 1001 to 1027, the 20 best items hold less than 80%
  of the revenue, so the first row of \<open>pareto_df\<close> to reach 80% is the synthetic row
  \<open>All Other Items\<close> at position 20. The analysis reports 21 items, the synthetic row counted
  as one of them, although the 21 best items hold less than 80% of the revenue; the reported
  share of the menu is 21 out of the 27 items of the uncollapsed catalogue.
\<close>

theorem pareto_counts_bucket_as_item:
  "length (group_keys Item_Name menu27) = 27
   \<and> snd (make_plot7_pareto_analysis menu27) = Some (21, 100 * 21 / 27)
   \<and> map Item_Name (filter (\<lambda>r. fge (Cumulative_Pct r) 80) (fst (make_plot7_pareto_analysis menu27)))
       = [''All Other Items'']
   \<and> 100 * sum_list (map Amount (take 21 (item_sales_of menu27))) / sum_list (map Amount menu27)
       < 80"
proof -
  have a: "length (group_keys Item_Name menu27) = 27"
    by (simp add: group_keys_menu27)
  have b: "snd (make_plot7_pareto_analysis menu27) = Some (21, 100 * 21 / 27)"
    by (simp add: make_plot7_pareto_analysis_def Let_def reach80_menu27 item_sales_menu27
        ranked27_def)
  have c: "map Item_Name (filter (\<lambda>r. fge (Cumulative_Pct r) 80)
             (fst (make_plot7_pareto_analysis menu27))) = [''All Other Items'']"
    by (simp add: fst_make_plot7 reach80_menu27)
  have "sum_list (map Amount (take 21 (item_sales_of menu27))) = 21357"
    by (simp add: item_sales_menu27 ranked27_def)
  moreover have "sum_list (map Amount menu27) = 27378"
    using sum_Amount_item_sales[of menu27] sum_Amount_pareto_rows[of ranked27]
    by (simp add: item_sales_menu27 pareto_rows_menu27 sum_top21)
  ultimately have d: "100 * sum_list (map Amount (take 21 (item_sales_of menu27)))
                        / sum_list (map Amount menu27) < 80"
    by simp
  from a b c d show ?thesis by blast
qed

subsection \<open>Growth analysis\<close>

lemma take_sort_key_mem:
  fixes k :: "'r \<Rightarrow> real"
  assumes "x \<in> set xs" and "length (filter (\<lambda>y. k y \<le> k x) xs) \<le> n"
  shows "x \<in> set (take n (sort_key k xs))"
proof -
  let ?ys = "sort_key k xs"
  let ?P = "\<lambda>y. k y \<le> k x"
  from assms(1) have "x \<in> set ?ys" by simp
  then have "\<exists>as bs. ?ys = as @ x # bs" by (rule split_list)
  then obtain as bs where ys: "?ys = as @ x # bs" by blast
  have "sorted (map k ?ys)" by simp
  then have "sorted (map k as @ k x # map k bs)" by (simp add: ys)
  then have before: "\<forall>a \<in> set as. k a \<le> k x" by (auto simp: sorted_append)
  then have "filter ?P as = as" by simp
  then have "length (filter ?P ?ys) = length as + 1 + length (filter ?P bs)"
    by (simp add: ys)
  moreover have "length (filter ?P ?ys) = length (filter ?P xs)"
    by (simp add: filter_sort)
  ultimately have "length as < n" using assms(2) by simp
  then have "take n ?ys = as @ x # take (n - Suc (length as)) bs"
    by (simp add: ys take_Cons')
  then show ?thesis by simp
qed

lemma nlargest_mem:
  assumes "x \<in> set xs" and "length (filter (\<lambda>y. col x \<le> col y) xs) \<le> n"
  shows "x \<in> set (nlargest n col xs)"
  unfolding nlargest_def using assms by (intro take_sort_key_mem) simp_all

lemma set_nlargest: "set (nlargest n col xs) \<subseteq> set xs"
  unfolding nlargest_def using set_take_subset[of n "sort_key (\<lambda>r. - col r) xs"] by simp

lemma set_nsmallest: "set (nsmallest n col xs) \<subseteq> set xs"
  unfolding nsmallest_def using set_take_subset[of n "sort_key col xs"] by simp

lemma fillna0_positive: "0 < fillna0 v \<Longrightarrow> v \<noteq> None"
  by (cases v) (auto simp: fillna0_def)

lemma growth_table_finite:
  assumes "r \<in> set (growth_table df)"
  shows "is_finite (Growth_Pct r)"
proof -
  from assms obtain v where "Growth_Pct r = replace_inf v" and "Growth_Pct r \<noteq> NaN"
    by (auto simp: growth_table_def Let_def)
  then show ?thesis by (cases v) auto
qed

lemma half_sales_keys: "map fst (half_sales months df)
    = group_keys Item_Name (filter (\<lambda>r. Month r \<in> set months) df)"
  by (simp add: half_sales_def Let_def o_def)

lemma growth_table_row:
  fixes df :: "sale list" and x :: string
  defines "fh \<equiv> fillna0 (map_of (half_sales [''May'', ''June'', ''July''] df) x)"
  defines "sh \<equiv> fillna0 (map_of (half_sales [''August'', ''September'', ''October''] df) x)"
  assumes "map_of (half_sales [''August'', ''September'', ''October''] df) x \<noteq> None"
    and "500 < fh + sh"
    and "replace_inf (fdiv (100 * (sh - fh)) (fh + eps)) \<noteq> NaN"
  shows "\<lparr>Item_Name = x, First_Half = fh, Second_Half = sh,
           Growth_Pct = replace_inf (fdiv (100 * (sh - fh)) (fh + eps)),
           Total_Sales = fh + sh\<rparr> \<in> set (growth_table df)"
proof -
  from assms(3) have "x \<in> fst ` set (half_sales [''August'', ''September'', ''October''] df)"
    by (simp add: map_of_eq_None_iff)
  then have "x \<in> set (map fst (half_sales [''August'', ''September'', ''October''] df))"
    by simp
  then have "x \<in> set (sort (remdups (map fst (half_sales [''May'', ''June'', ''July''] df)
                 @ map fst (half_sales [''August'', ''September'', ''October''] df))))"
    by simp
  then show ?thesis
    using assms(4,5) unfolding growth_table_def Let_def fh_def sh_def
    by (simp add: image_iff)
qed

text \<open>
  C5 (amended). Every item with zero first-half revenue, positive second-half revenue and
  combined revenue above 500 is kept by the filters with the finite growth value
  \<open>100 * second_half / 1e-6\<close>, and it is in the rising list whenever at most ten kept rows
  have a growth value at least as large as its own; no row of the rising or the fading list
  has a non-finite growth value.
\<close>

theorem growth_zero_base_item:
  fixes df :: "sale list" and x :: string
  defines "sh \<equiv> fillna0 (map_of (half_sales [''August'', ''September'', ''October''] df) x)"
  assumes "fillna0 (map_of (half_sales [''May'', ''June'', ''July''] df) x) = 0"
    and "0 < sh"
    and "500 < 0 + sh"
  shows "(\<exists>r \<in> set (growth_table df).
            Item_Name r = x \<and> First_Half r = 0 \<and> Second_Half r = sh
            \<and> Growth_Pct r = Fin (100 * sh * 1000000)
            \<and> (length (filter (\<lambda>y. fin_val (Growth_Pct r) \<le> fin_val (Growth_Pct y))
                          (growth_table df)) \<le> 10
                 \<longrightarrow> r \<in> set (fst (make_plot6_movers_and_shakers df))))
         \<and> (\<forall>r \<in> set (fst (make_plot6_movers_and_shakers df))
                   \<union> set (snd (make_plot6_movers_and_shakers df)). is_finite (Growth_Pct r))"
proof -
  let ?fh = "fillna0 (map_of (half_sales [''May'', ''June'', ''July''] df) x)"
  let ?g = "replace_inf (fdiv (100 * (sh - ?fh)) (?fh + eps))"
  let ?r = "\<lparr>Item_Name = x, First_Half = ?fh, Second_Half = sh, Growth_Pct = ?g,
             Total_Sales = ?fh + sh\<rparr>"
  have g: "?g = Fin (100 * sh * 1000000)"
    by (simp add: assms(2) fdiv_def eps_def)
  have present: "map_of (half_sales [''August'', ''September'', ''October''] df) x \<noteq> None"
    using assms(3) unfolding sh_def by (rule fillna0_positive)
  have mem: "?r \<in> set (growth_table df)"
    unfolding sh_def
  proof (rule growth_table_row)
    show "map_of (half_sales [''August'', ''September'', ''October''] df) x \<noteq> None"
      by (rule present)
    show "500 < ?fh + fillna0 (map_of (half_sales [''August'', ''September'', ''October''] df) x)"
      using assms(4) by (simp add: assms(2) sh_def)
    show "replace_inf (fdiv (100 * (fillna0 (map_of (half_sales [''August'', ''September'',
             ''October''] df) x) - ?fh)) (?fh + eps)) \<noteq> NaN"
      using g by (simp add: sh_def)
  qed
  have rising: "?r \<in> set (fst (make_plot6_movers_and_shakers df))"
    if "length (filter (\<lambda>y. fin_val (Growth_Pct ?r) \<le> fin_val (Growth_Pct y))
                  (growth_table df)) \<le> 10"
    using mem that unfolding make_plot6_movers_and_shakers_def Let_def fst_conv
    by (intro nlargest_mem)
  have "Item_Name ?r = x \<and> First_Half ?r = 0 \<and> Second_Half ?r = sh
        \<and> Growth_Pct ?r = Fin (100 * sh * 1000000)"
    using g by (simp add: assms(2))
  with mem rising
  have one: "\<exists>r \<in> set (growth_table df).
            Item_Name r = x \<and> First_Half r = 0 \<and> Second_Half r = sh
            \<and> Growth_Pct r = Fin (100 * sh * 1000000)
            \<and> (length (filter (\<lambda>y. fin_val (Growth_Pct r) \<le> fin_val (Growth_Pct y))
                          (growth_table df)) \<le> 10
                 \<longrightarrow> r \<in> set (fst (make_plot6_movers_and_shakers df)))"
    by blast
  have two: "\<forall>r \<in> set (fst (make_plot6_movers_and_shakers df))
                \<union> set (snd (make_plot6_movers_and_shakers df)). is_finite (Growth_Pct r)"
    using set_nlargest[of 10 "\<lambda>r. fin_val (Growth_Pct r)" "growth_table df"]
      set_nsmallest[of 10 "\<lambda>r. fin_val (Growth_Pct r)" "growth_table df"]
    by (auto simp: make_plot6_movers_and_shakers_def Let_def intro: growth_table_finite)
  from one two show ?thesis by (rule conjI)
qed

lemma half_sales_growth_sales:
  "half_sales [''May'', ''June'', ''July''] growth_sales = [(''Beef Ramen'', 400)]"
  "half_sales [''August'', ''September'', ''October''] growth_sales
     = [(''Beef Ramen'', 300), (''Boba'', 600)]"
  by (simp_all add: half_sales_def growth_sales_def group_keys_def group_sum_def Let_def)

lemma growth_table_growth_sales:
  "growth_table growth_sales =
     [\<lparr>Item_Name = ''Beef Ramen'', First_Half = 400, Second_Half = 300,
        Growth_Pct = Fin (100 * (300 - 400) / (400 + 1 / 1000000)), Total_Sales = 700\<rparr>,
      \<lparr>Item_Name = ''Boba'', First_Half = 0, Second_Half = 600,
        Growth_Pct = Fin 60000000000, Total_Sales = 600\<rparr>]"
  unfolding growth_table_def Let_def half_sales_growth_sales
  by (simp add: fillna0_def fdiv_def eps_def)

theorem growth_zero_base_item_witness:
  "\<exists>r \<in> set (growth_table growth_sales).
      Item_Name r = ''Boba'' \<and> Growth_Pct r = Fin 60000000000
      \<and> r \<in> set (fst (make_plot6_movers_and_shakers growth_sales))"
proof -
  have f: "fillna0 (map_of (half_sales [''May'', ''June'', ''July''] growth_sales) ''Boba'') = 0"
    by (simp add: half_sales_growth_sales fillna0_def)
  have s: "fillna0 (map_of (half_sales [''August'', ''September'', ''October''] growth_sales)
             ''Boba'') = 600"
    by (simp add: half_sales_growth_sales fillna0_def)
  have small: "length (filter P (growth_table growth_sales)) \<le> 10" for P
    using length_filter_le[of P "growth_table growth_sales"]
    by (simp add: growth_table_growth_sales)
  from growth_zero_base_item[of growth_sales "''Boba''"] f s small
  show ?thesis by auto
qed

lemma half_sales_movers11:
  "half_sales [''May'', ''June'', ''July''] movers11 = []"
  "half_sales [''August'', ''September'', ''October''] movers11
     = [(''A'', 1001), (''B'', 1002), (''C'', 1003), (''D'', 1004), (''E'', 1005),
        (''F'', 1006), (''G'', 1007), (''H'', 1008), (''I'', 1009), (''J'', 1010),
        (''K'', 1011)]"
  by (simp_all add: half_sales_def movers11_def group_keys_def group_sum_def Let_def)

lemma growth_table_movers11:
  "growth_table movers11 =
     map (\<lambda>(name, sh, g). \<lparr>Item_Name = name, First_Half = 0, Second_Half = sh,
                             Growth_Pct = Fin g, Total_Sales = sh\<rparr>)
       [(''A'', 1001, 100100000000), (''B'', 1002, 100200000000), (''C'', 1003,
        100300000000), (''D'', 1004, 100400000000), (''E'', 1005, 100500000000),
        (''F'', 1006, 100600000000), (''G'', 1007, 100700000000), (''H'', 1008,
        100800000000), (''I'', 1009, 100900000000), (''J'', 1010, 101000000000),
        (''K'', 1011, 101100000000)]"
  unfolding growth_table_def Let_def half_sales_movers11
  by (simp add: fillna0_def fdiv_def eps_def)

text \<open>
  C5 as stated fails on eleven items that all have zero first-half revenue and second-half
  revenue 1001 to 1011: item \<open>A\<close> has the smallest growth of the eleven, so it is not
  among the ten rows of the rising list, and it is the first row of the fading list.
\<close>

theorem growth_zero_base_item_counterexample:
  "fillna0 (map_of (half_sales [''May'', ''June'', ''July''] movers11) ''A'') = 0
   \<and> fillna0 (map_of (half_sales [''August'', ''September'', ''October''] movers11) ''A'') = 1001
   \<and> map Item_Name (fst (make_plot6_movers_and_shakers movers11))
       = [''K'', ''J'', ''I'', ''H'', ''G'', ''F'', ''E'', ''D'', ''C'', ''B'']
   \<and> map Item_Name (snd (make_plot6_movers_and_shakers movers11))
       = [''A'', ''B'', ''C'', ''D'', ''E'', ''F'', ''G'', ''H'', ''I'', ''J'']"
  by (simp add: make_plot6_movers_and_shakers_def Let_def growth_table_movers11
      nlargest_def nsmallest_def half_sales_movers11 fillna0_def)

end
